theory Spec2Isabelle
  imports Main "HOL-Library.Multiset" "HOL-Library.Word"
begin

section \<open>Go strings and the two library functions the address predicate uses\<close>

text \<open>
  A Go string is a sequence of bytes, here a \<^typ>\<open>string\<close> (a list of 8-bit characters).
  \<open>strings.HasPrefix\<close> and \<open>strings.Contains\<close> work on bytes; \<open>strings.TrimSpace\<close> removes the
  leading and trailing code points for which \<open>unicode.IsSpace\<close> holds, read in UTF-8.
\<close>

fun HasPrefix :: "string \<Rightarrow> string \<Rightarrow> bool" where
  "HasPrefix s [] = True"
| "HasPrefix [] (p # ps) = False"
| "HasPrefix (c # cs) (p # ps) = (c = p \<and> HasPrefix cs ps)"

fun Contains :: "string \<Rightarrow> string \<Rightarrow> bool" where
  "Contains [] substr = (substr = [])"
| "Contains (c # cs) substr = (HasPrefix (c # cs) substr \<or> Contains cs substr)"

definition spaceRunes :: "string list" where
  \<comment> \<open>The UTF-8 encodings of the code points of \<open>unicode.IsSpace\<close>: tab, LF, VT, FF, CR, space,
      U+0085, U+00A0, U+1680, U+2000 to U+200A, U+2028, U+2029, U+202F, U+205F, U+3000.\<close>
  "spaceRunes =
     [[CHR 0x09], [CHR 0x0A], [CHR 0x0B], [CHR 0x0C], [CHR 0x0D], [CHR 0x20],
      [CHR 0xC2, CHR 0x85], [CHR 0xC2, CHR 0xA0],
      [CHR 0xE1, CHR 0x9A, CHR 0x80],
      [CHR 0xE2, CHR 0x80, CHR 0x80], [CHR 0xE2, CHR 0x80, CHR 0x81],
      [CHR 0xE2, CHR 0x80, CHR 0x82], [CHR 0xE2, CHR 0x80, CHR 0x83],
      [CHR 0xE2, CHR 0x80, CHR 0x84], [CHR 0xE2, CHR 0x80, CHR 0x85],
      [CHR 0xE2, CHR 0x80, CHR 0x86], [CHR 0xE2, CHR 0x80, CHR 0x87],
      [CHR 0xE2, CHR 0x80, CHR 0x88], [CHR 0xE2, CHR 0x80, CHR 0x89],
      [CHR 0xE2, CHR 0x80, CHR 0x8A],
      [CHR 0xE2, CHR 0x80, CHR 0xA8], [CHR 0xE2, CHR 0x80, CHR 0xA9],
      [CHR 0xE2, CHR 0x80, CHR 0xAF],
      [CHR 0xE2, CHR 0x81, CHR 0x9F],
      [CHR 0xE3, CHR 0x80, CHR 0x80]]"

definition spaceWidth :: "string list \<Rightarrow> string \<Rightarrow> nat" where
  \<comment> \<open>The number of bytes of the white-space rune the text starts with; 0 when it starts with none.\<close>
  "spaceWidth runes s = (case filter (HasPrefix s) runes of [] \<Rightarrow> 0 | r # _ \<Rightarrow> length r)"

fun trimLeft :: "string list \<Rightarrow> string \<Rightarrow> string" where
  "trimLeft runes [] = []"
| "trimLeft runes (c # cs) =
     (if spaceWidth runes (c # cs) = 0 then c # cs
      else trimLeft runes (drop (spaceWidth runes (c # cs) - 1) cs))"

definition TrimSpace :: "string \<Rightarrow> string" where
  "TrimSpace s = rev (trimLeft (map rev spaceRunes) (rev (trimLeft spaceRunes s)))"

section \<open>The host model (package host)\<close>

text \<open>
  \<open>ssh.Config\<close> is the resolved configuration of the SSH client; the host record points to one,
  and the pointer may be nil. The package \<open>ssh\<close> is not part of the sources at hand: its options
  are the five the host model constructs, and its three command builders are parameters of the
  functions that call them.
\<close>

record Config =
  Hostname :: string
  IdentityFile :: string
  Port :: string
  User :: string

record Host =
  ID :: int
  Title :: string
  Description :: string
  Address :: string
  RemotePort :: string
  LoginName :: string
  IdentityFilePath :: string
  Password :: string
  SSHClientConfig :: "Config option"

datatype ssh_Option =
    OptionPrivateKey string
  | OptionRemotePort string
  | OptionLoginName string
  | OptionAddress string
  | OptionReadConfig string

datatype fault = NilPointerDereference | IndexOutOfRange

definition NewHost ::
  "int \<Rightarrow> string \<Rightarrow> string \<Rightarrow> string \<Rightarrow> string \<Rightarrow> string \<Rightarrow> string \<Rightarrow> string \<Rightarrow> Host" where
  "NewHost hostID title description address loginName identityFilePath remotePort password =
     \<lparr>ID = hostID, Title = title, Description = description, Address = address,
      RemotePort = remotePort, LoginName = loginName, IdentityFilePath = identityFilePath,
      Password = password, SSHClientConfig = None\<rparr>"

definition Clone :: "Host \<Rightarrow> Host \<times> Host" where
  \<comment> \<open>The method has a pointer receiver: the result is the receiver's record after the call,
      paired with the returned record. Unset fields of the composite literal are zero.\<close>
  "Clone h =
     (h, \<lparr>ID = 0, Title = Title h, Description = Description h, Address = Address h,
          RemotePort = RemotePort h, LoginName = LoginName h,
          IdentityFilePath = IdentityFilePath h, Password = Password h,
          SSHClientConfig = None\<rparr>)"

definition IsUserDefinedSSHCommand :: "Host \<Rightarrow> bool" where
  "IsUserDefinedSSHCommand h =
     (let rawValue = TrimSpace (Address h);
          containsSpace = Contains rawValue '' '';
          containsAtSymbol = Contains rawValue ''@''
      in containsSpace \<or> containsAtSymbol)"

definition CmdSSHConnect :: "(ssh_Option list \<Rightarrow> string) \<Rightarrow> Host \<Rightarrow> string" where
  "CmdSSHConnect connectCommand h =
     (if IsUserDefinedSSHCommand h then connectCommand [OptionAddress (Address h)]
      else
        let options = [OptionPrivateKey (IdentityFilePath h), OptionRemotePort (RemotePort h),
                       OptionLoginName (LoginName h), OptionAddress (Address h)]
        in if Password h \<noteq> []
           then ''sshpass -p '' @ [CHR 0x27] @ Password h @ [CHR 0x27] @ '' '' @ connectCommand options
           else connectCommand options)"

definition CmdSSHConfig :: "(ssh_Option list \<Rightarrow> string) \<Rightarrow> Host \<Rightarrow> string" where
  "CmdSSHConfig loadConfigCommand h =
     (if IsUserDefinedSSHCommand h then loadConfigCommand [OptionReadConfig (Address h)]
      else loadConfigCommand
             [OptionPrivateKey (IdentityFilePath h), OptionRemotePort (RemotePort h),
              OptionLoginName (LoginName h), OptionReadConfig (Address h)])"

definition CmdSSHCopyID :: "(ssh_Option list \<Rightarrow> string) \<Rightarrow> Host \<Rightarrow> fault + string" where
  \<comment> \<open>Reading a field through the nil pointer \<open>h.SSHClientConfig\<close> panics.\<close>
  "CmdSSHCopyID copyIDCommand h =
     (case SSHClientConfig h of
        None \<Rightarrow> Inl NilPointerDereference
      | Some c \<Rightarrow>
          let hostname = Hostname c; identityFile = IdentityFile c; port = Port c; user = User c
          in Inr (copyIDCommand [OptionLoginName user, OptionRemotePort port,
                                 OptionPrivateKey identityFile, OptionAddress hostname]))"

text \<open>
  Modelled from the spec: \<open>ssh.ConnectCommand\<close> is missing from the sources. Section 4.2 has the
  command composed from the options in the order given, an empty option left out, and section 8
  gives two outputs: \<open>ssh -i /k -p 22 root@10.0.0.5\<close> for the four structured options and
  \<open>ssh root@10.0.0.5\<close> for the address \<open>root@10.0.0.5\<close> alone.
\<close>

fun addOption :: "string \<Rightarrow> ssh_Option \<Rightarrow> string" where
  "addOption sb (OptionPrivateKey v) = (if v = [] then sb else sb @ '' -i '' @ v)"
| "addOption sb (OptionRemotePort v) = (if v = [] then sb else sb @ '' -p '' @ v)"
| "addOption sb (OptionLoginName v) = (if v = [] then sb else sb @ '' '' @ v @ ''@'')"
| "addOption sb (OptionAddress v) =
     (if v = [] then sb else if sb \<noteq> [] \<and> last sb = CHR ''@'' then sb @ v else sb @ '' '' @ v)"
| "addOption sb (OptionReadConfig v) =
     (if v = [] then sb else if sb \<noteq> [] \<and> last sb = CHR ''@'' then sb @ v else sb @ '' '' @ v)"

definition ConnectCommand :: "ssh_Option list \<Rightarrow> string" where
  "ConnectCommand options = foldl addOption ''ssh'' options"

section \<open>The text-input widget (package input)\<close>

text \<open>
  Modelled from the spec: the widget \<open>input.Input\<close> is missing from the sources. Section 3 gives a
  form field a label, a text value, an optional validator (a pure function from the text to pass
  or fail with a message), a placeholder, an enabled flag and a focus flag; section 6 gives its
  contract (value, setValue, setCursor, focus, blur, validate). An error is its message, and
  \<open>None\<close> is Go's nil. \<open>SetValue\<close> runs the validator and keeps the old value when it fails, as
  the comment in \<open>copyInputValueFromTo\<close> describes. What the widget does with a key is opaque to
  the controller, so a key message carries the widget's reaction to it.
\<close>

type_synonym error = string

type_synonym ValidateFunc = "string \<Rightarrow> error option"

record Input =
  Label :: string
  Value :: string
  Placeholder :: string
  CharLimit :: int
  Validate :: "ValidateFunc option"
  Err :: "error option"
  Enabled :: bool
  Focused :: bool
  CursorPos :: int

definition input_New :: Input where
  "input_New = \<lparr>Label = [], Value = [], Placeholder = [], CharLimit = 0, Validate = None,
                 Err = None, Enabled = True, Focused = False, CursorPos = 0\<rparr>"

definition SetLabel :: "string \<Rightarrow> Input \<Rightarrow> Input" where
  "SetLabel l t = t\<lparr>Label := l\<rparr>"

definition SetValue :: "string \<Rightarrow> Input \<Rightarrow> Input" where
  "SetValue s t =
     (case Validate t of
        None \<Rightarrow> t\<lparr>Value := s\<rparr>
      | Some validate \<Rightarrow>
          (case validate s of Some err \<Rightarrow> t\<lparr>Err := Some err\<rparr> | None \<Rightarrow> t\<lparr>Value := s\<rparr>))"

definition SetCursor :: "int \<Rightarrow> Input \<Rightarrow> Input" where
  "SetCursor pos t = t\<lparr>CursorPos := pos\<rparr>"

definition SetEnabled :: "bool \<Rightarrow> Input \<Rightarrow> Input" where
  "SetEnabled b t = t\<lparr>Enabled := b\<rparr>"

definition Focus :: "Input \<Rightarrow> Input" where
  "Focus t = t\<lparr>Focused := True\<rparr>"

definition Blur :: "Input \<Rightarrow> Input" where
  "Blur t = t\<lparr>Focused := False\<rparr>"

section \<open>Messages and commands\<close>

text \<open>
  \<open>key.Matches\<close> compares a key with a binding of the key map, which is declared outside the
  sources at hand: a key message says which bindings it matches. A command is a value: nil, one
  message (\<open>message.TeaCmd\<close>), a sequence or a batch of commands, the blink command that
  \<open>Focus\<close> returns, or the timer that \<open>handleDebouncedMessage\<close> arms, which holds the envelope
  its callback has captured. The debounce tag is Go's \<open>int\<close>, taken at 64 bits: a 64-bit word,
  on which \<open>++\<close> and \<open>- 1\<close> wrap around.
\<close>

record KeyMsg =
  matchesSave :: bool
  matchesCopyInputValue :: bool
  matchesUp :: bool
  matchesDown :: bool
  matchesDiscard :: bool
  widgetUpdate :: "Input \<Rightarrow> Input"

datatype Msg =
    WindowSizeMsg int int
  | TeaKeyMsg KeyMsg
  | DebouncedMessage Msg "64 word"
  | HostSSHConfigLoaded
  | RunProcessLoadSSHConfig string
  | MsgClose
  | MsgSave
  | HostListSelectItem int
  | MsgRefreshRepo

datatype Cmd =
    NilCmd
  | TeaCmd Msg
  | Sequence "Cmd list"
  | Batch "Cmd list"
  | Blink
  | Tick Msg "64 word"

section \<open>The edit form (package hostedit)\<close>

abbreviation (input) inputTitle :: int where "inputTitle \<equiv> 0"
abbreviation (input) inputAddress :: int where "inputAddress \<equiv> 1"
abbreviation (input) inputDescription :: int where "inputDescription \<equiv> 2"
abbreviation (input) inputLogin :: int where "inputLogin \<equiv> 3"
abbreviation (input) inputNetworkPort :: int where "inputNetworkPort \<equiv> 4"
abbreviation (input) inputIdentityFile :: int where "inputIdentityFile \<equiv> 5"

definition defaultTitle :: string where
  "defaultTitle = ''host details''"

definition StringEmpty :: "string \<Rightarrow> bool" where
  \<comment> \<open>Modelled from the spec: \<open>utils.StringEmpty\<close> is missing from the sources; a required field
      is one that is not empty (section 3).\<close>
  "StringEmpty s = (s = [])"

definition notEmptyValidator :: ValidateFunc where
  "notEmptyValidator s = (if StringEmpty s then Some ''value is required'' else None)"

definition networkPortValidator :: "(string \<Rightarrow> int \<Rightarrow> int \<Rightarrow> error + nat) \<Rightarrow> ValidateFunc" where
  \<comment> \<open>\<open>strconv.ParseUint\<close> is a parameter: it returns the number or an error.\<close>
  "networkPortValidator parseUint s =
     (if StringEmpty s then None
      else
        let auto = 0; maxLengthBit = 16
        in case parseUint s auto maxLengthBit of
             Inl err \<Rightarrow> Some ''network port must be a number which is less than 65,535''
           | Inr num \<Rightarrow>
               if num < 1 then Some ''network port must be a number which is less than 65,535''
               else None)"

record keyMap =
  CopyInputValueEnabled :: bool

definition getKeyMap :: "int \<Rightarrow> keyMap" where
  "getKeyMap focusedInput' =
     (if focusedInput' = inputTitle \<or> focusedInput' = inputAddress
      then \<lparr>CopyInputValueEnabled = True\<rparr> else \<lparr>CopyInputValueEnabled = False\<rparr>)"

text \<open>
  Modelled from the spec: the storage collaborator is missing from the sources. Section 6 gives
  \<open>get(id)\<close>, which returns a record or that none was found, and \<open>save(record)\<close>, which returns the
  saved record with its assigned id, or an error. The model keeps what either call returns and the
  list of the records handed to \<open>save\<close>, in the order of the calls.
\<close>

record HostStorage =
  GetResult :: "int \<Rightarrow> Host \<times> error option"
  SaveResult :: "Host \<Rightarrow> Host \<times> error option"
  saveCalls :: "Host list"

record ApplicationState =
  HostSSHConfig :: Config
  Width :: int
  Height :: int

text \<open>
  The form's state. The viewport and the help model only render and are left out; the logger is
  left out as well. The host record of this form is the record of the host model above: the field
  the form calls \<open>PrivateKeyPath\<close> is the model's \<open>IdentityFilePath\<close>.
\<close>

record editModel =
  appState :: ApplicationState
  focusedInput :: int
  host :: Host
  hostStorage :: HostStorage
  inputs :: "Input list"
  isNewHost :: bool
  keyMap :: keyMap
  ready :: bool
  title :: string
  debounceTag :: "64 word"

definition zeroHost :: Host where
  "zeroHost = \<lparr>ID = 0, Title = [], Description = [], Address = [], RemotePort = [],
               LoginName = [], IdentityFilePath = [], Password = [], SSHClientConfig = None\<rparr>"

definition newInput ::
  "(string \<Rightarrow> int \<Rightarrow> int \<Rightarrow> error + nat) \<Rightarrow> ApplicationState \<Rightarrow> Host \<Rightarrow> int \<Rightarrow> Input" where
  \<comment> \<open>One turn of the loop of \<open>New\<close>: a fresh widget, set up by the switch on the index.\<close>
  "newInput parseUint state h i =
     (let t = input_New in
      if i = inputTitle then
        (SetValue (Title h) (SetLabel ''Title'' t))\<lparr>Placeholder := ''*required*'', Validate := Some notEmptyValidator\<rparr>
      else if i = inputAddress then
        (SetValue (Address h) ((SetLabel ''Host'' t)\<lparr>CharLimit := 128\<rparr>))
          \<lparr>Placeholder := ''*required*'', Validate := Some notEmptyValidator\<rparr>
      else if i = inputDescription then
        SetValue (Description h) ((SetLabel ''Description'' t)\<lparr>CharLimit := 512, Placeholder := ''n/a''\<rparr>)
      else if i = inputLogin then
        SetValue (LoginName h)
          ((SetLabel ''Login'' t)\<lparr>CharLimit := 128, Placeholder := ''default: '' @ User (HostSSHConfig state)\<rparr>)
      else if i = inputNetworkPort then
        (SetValue (RemotePort h)
          ((SetLabel ''Network port'' t)\<lparr>CharLimit := 5, Placeholder := ''default: '' @ Port (HostSSHConfig state)\<rparr>))
          \<lparr>Validate := Some (networkPortValidator parseUint)\<rparr>
      else if i = inputIdentityFile then
        SetValue (IdentityFilePath h)
          ((SetLabel ''Identity file'' t)
             \<lparr>CharLimit := 512, Placeholder := ''default: '' @ IdentityFile (HostSSHConfig state)\<rparr>)
      else t)"

definition New ::
  "(string \<Rightarrow> int \<Rightarrow> int \<Rightarrow> error + nat) \<Rightarrow> int \<Rightarrow> HostStorage \<Rightarrow> ApplicationState \<Rightarrow> editModel" where
  "New parseUint hostID storage state =
     (let initialFocusedInput = inputTitle;
          (found, hostNotFoundErr) = GetResult storage hostID;
          h = (if hostNotFoundErr \<noteq> None then zeroHost else found);
          ts = map (newInput parseUint state h) [0, 1, 2, 3, 4, 5]
      in \<lparr>appState = state, focusedInput = initialFocusedInput, host = h, hostStorage = storage,
          inputs = ts[nat initialFocusedInput := Focus (ts ! nat initialFocusedInput)],
          isNewHost = (hostNotFoundErr \<noteq> None), keyMap = getKeyMap initialFocusedInput,
          ready = False, title = defaultTitle, debounceTag = 0\<rparr>)"

text \<open>
  A panic ends the program, so a function that can panic returns the fault or its result.
  Indexing a slice outside its range panics, and so does calling a nil function value.
\<close>

definition andThen :: "fault + 'a \<Rightarrow> ('a \<Rightarrow> fault + 'b) \<Rightarrow> fault + 'b" where
  "andThen r f = (case r of Inl e \<Rightarrow> Inl e | Inr x \<Rightarrow> f x)"

definition inputAt :: "Input list \<Rightarrow> int \<Rightarrow> fault + Input" where
  "inputAt ts i = (if 0 \<le> i \<and> i < int (length ts) then Inr (ts ! nat i) else Inl IndexOutOfRange)"

definition handleDebouncedMessage :: "Msg \<Rightarrow> 64 word \<Rightarrow> editModel \<Rightarrow> editModel \<times> Cmd" where
  \<comment> \<open>The envelope is \<open>wrappedMsg\<close> with \<open>tag\<close>; the timer's callback keeps both.\<close>
  "handleDebouncedMessage wrappedMsg tag m = (m\<lparr>debounceTag := debounceTag m + 1\<rparr>, Tick wrappedMsg tag)"

fun timerFires :: "editModel \<Rightarrow> Cmd \<Rightarrow> Msg option" where
  \<comment> \<open>The callback of the timer, run on the form's state at the time it fires; \<open>None\<close> is the
      nil message.\<close>
  "timerFires m (Tick wrappedMsg tag) = (if tag = debounceTag m - 1 then Some wrappedMsg else None)"
| "timerFires m c = None"

definition saveHostAttribute :: "nat \<Rightarrow> string \<Rightarrow> Host \<Rightarrow> Host" where
  \<comment> \<open>The switch on the index in the loop of \<open>save\<close>.\<close>
  "saveHostAttribute i v h =
     (if int i = inputTitle then h\<lparr>Title := v\<rparr>
      else if int i = inputAddress then h\<lparr>Address := v\<rparr>
      else if int i = inputDescription then h\<lparr>Description := v\<rparr>
      else if int i = inputLogin then h\<lparr>LoginName := v\<rparr>
      else if int i = inputNetworkPort then h\<lparr>RemotePort := v\<rparr>
      else if int i = inputIdentityFile then h\<lparr>IdentityFilePath := v\<rparr>
      else h)"

definition validationError :: "Input \<Rightarrow> error option" where
  \<comment> \<open>The guarded call \<open>Validate(Value())\<close>: no validator, no error.\<close>
  "validationError t = (case Validate t of None \<Rightarrow> None | Some validate \<Rightarrow> validate (Value t))"

fun saveInputs :: "nat list \<Rightarrow> editModel \<Rightarrow> editModel + editModel" where
  \<comment> \<open>The loop of \<open>save\<close> over the indices still to visit: \<open>Inl\<close> is the early return.\<close>
  "saveInputs [] m = Inr m"
| "saveInputs (i # rest) m =
     (case validationError (inputs m ! i) of
        Some err \<Rightarrow>
          Inl (m\<lparr>inputs := (inputs m)[i := (inputs m ! i)\<lparr>Err := Some err\<rparr>],
                 title := Label (inputs m ! i) @ '' is not valid''\<rparr>)
      | None \<Rightarrow> saveInputs rest (m\<lparr>host := saveHostAttribute i (Value (inputs m ! i)) (host m)\<rparr>))"

definition save :: "editModel \<Rightarrow> editModel \<times> Cmd" where
  "save m =
     (case saveInputs [0..<length (inputs m)] m of
        Inl m' \<Rightarrow> (m', NilCmd)
      | Inr m' \<Rightarrow>
          let (saved, storageErr) = SaveResult (hostStorage m') (host m');
              storage' = (hostStorage m')\<lparr>saveCalls := saveCalls (hostStorage m') @ [host m']\<rparr>
          in (m'\<lparr>hostStorage := storage'\<rparr>,
              Sequence [TeaCmd MsgClose, TeaCmd (HostListSelectItem (ID saved)), TeaCmd MsgRefreshRepo]))"

definition copyInputValueFromTo :: "int \<Rightarrow> int \<Rightarrow> editModel \<Rightarrow> fault + editModel" where
  "copyInputValueFromTo sourceInput destinationInput m =
     andThen (inputAt (inputs m) sourceInput) (\<lambda>src.
     let newValue = Value src in
     andThen (inputAt (inputs m) destinationInput) (\<lambda>dst.
     let validator = Validate dst;
         dst1 = dst\<lparr>Validate := None\<rparr>;
         dst2 = SetValue newValue dst1;
         dst3 = SetCursor (int (length newValue)) dst2;
         dst4 = dst3\<lparr>Validate := validator\<rparr>
     in case Validate dst4 of
          None \<Rightarrow> Inl NilPointerDereference
        | Some validate \<Rightarrow>
            Inr (m\<lparr>inputs := (inputs m)[nat destinationInput := dst4\<lparr>Err := validate newValue\<rparr>]\<rparr>)))"

definition focusedInputProcessKeyEvent :: "KeyMsg \<Rightarrow> editModel \<Rightarrow> fault + (editModel \<times> Cmd)" where
  \<comment> \<open>The receiver is a copy of the form, but its slice shares the widgets with the form: the
      changes to the widgets stay, and the form's other fields are only read.\<close>
  "focusedInputProcessKeyEvent msg m =
     andThen (inputAt (inputs m) (focusedInput m)) (\<lambda>focused.
     let previousValue = Value focused in
     andThen
       (if focusedInput m = inputTitle then
          andThen (inputAt (inputs m) inputTitle) (\<lambda>titleInput.
          andThen (inputAt (inputs m) inputAddress) (\<lambda>addressInput.
          let addressEqualsTitle = (Value titleInput = Value addressInput)
          in Inr (isNewHost m \<and> addressEqualsTitle)))
        else Inr False) (\<lambda>shouldUpdateTitle.
     let m1 = m\<lparr>inputs := (inputs m)[nat (focusedInput m) := widgetUpdate msg focused]\<rparr> in
     andThen
       (if shouldUpdateTitle then copyInputValueFromTo inputTitle inputAddress m1 else Inr m1) (\<lambda>m2.
     if focusedInput m2 = inputAddress then
       andThen (inputAt (inputs m2) inputAddress) (\<lambda>addressInput.
       let currentValue = Value addressInput in
       if previousValue \<noteq> currentValue
       then Inr (m2, TeaCmd (DebouncedMessage (RunProcessLoadSSHConfig currentValue) (debounceTag m2)))
       else Inr (m2, NilCmd))
     else Inr (m2, NilCmd))))"

fun focusInputs :: "nat list \<Rightarrow> editModel \<times> Cmd list \<Rightarrow> editModel \<times> Cmd list" where
  \<comment> \<open>The second loop of \<open>inputFocusChange\<close> over the indices still to visit.\<close>
  "focusInputs [] (m, cmds) = (m, cmds)"
| "focusInputs (i # rest) (m, cmds) =
     (let t = inputs m ! i;
          t1 = (case Validate t of None \<Rightarrow> t | Some validate \<Rightarrow> t\<lparr>Err := validate (Value t)\<rparr>)
      in if int i = focusedInput m
         then focusInputs rest
                (m\<lparr>keyMap := getKeyMap (int i), inputs := (inputs m)[i := Focus t1]\<rparr>, cmds @ [Blink])
         else focusInputs rest (m\<lparr>inputs := (inputs m)[i := Blur t1]\<rparr>, cmds))"

definition inputFocusChange :: "KeyMsg \<Rightarrow> editModel \<Rightarrow> editModel \<times> Cmd" where
  "inputFocusChange keyMsg m =
     (let minFocusIndex = 0; maxFocusIndex = int (length (inputs m)) - 1 in
      if matchesUp keyMsg \<and> focusedInput m > minFocusIndex then
        (let (m', cmds) = focusInputs [0..<length (inputs m)] (m\<lparr>focusedInput := focusedInput m - 1\<rparr>, [])
         in (m', Batch cmds))
      else if matchesDown keyMsg \<and> focusedInput m < maxFocusIndex then
        (let (m', cmds) = focusInputs [0..<length (inputs m)] (m\<lparr>focusedInput := focusedInput m + 1\<rparr>, [])
         in (m', Batch cmds))
      else (m, NilCmd))"

definition handleCopyInputValueShortcut :: "editModel \<Rightarrow> fault + editModel" where
  "handleCopyInputValueShortcut m =
     (if focusedInput m = inputTitle then copyInputValueFromTo (focusedInput m) inputAddress m
      else if focusedInput m = inputAddress then copyInputValueFromTo (focusedInput m) inputTitle m
      else Inr m)"

definition isCustomConnectString :: "editModel \<Rightarrow> fault + bool" where
  "isCustomConnectString m =
     andThen (inputAt (inputs m) inputAddress) (\<lambda>addressInput.
     let rawValue = TrimSpace (Value addressInput);
         containsSpace = Contains rawValue '' '';
         containsAtSymbol = Contains rawValue ''@''
     in Inr (containsSpace \<or> containsAtSymbol))"

definition updateInputPlaceholders :: "editModel \<Rightarrow> fault + editModel" where
  "updateInputPlaceholders m =
     andThen (isCustomConnectString m) (\<lambda>custom.
     let prefix = (if custom then ''readonly: '' else ''default: '') in
     if length (inputs m) \<le> nat inputIdentityFile then Inl IndexOutOfRange
     else
       let ts = inputs m;
           ts1 = ts[nat inputLogin :=
                      (ts ! nat inputLogin)\<lparr>Placeholder := prefix @ User (HostSSHConfig (appState m))\<rparr>];
           ts2 = ts1[nat inputNetworkPort :=
                      (ts1 ! nat inputNetworkPort)\<lparr>Placeholder := prefix @ Port (HostSSHConfig (appState m))\<rparr>];
           ts3 = ts2[nat inputIdentityFile :=
                      (ts2 ! nat inputIdentityFile)
                        \<lparr>Placeholder := prefix @ IdentityFile (HostSSHConfig (appState m))\<rparr>]
       in Inr (m\<lparr>inputs := ts3\<rparr>))"

definition updateInputTitles :: "editModel \<Rightarrow> fault + editModel" where
  "updateInputTitles m =
     andThen (isCustomConnectString m) (\<lambda>custom.
     let shouldDisableSSHArguments = \<not> custom in
     if length (inputs m) \<le> nat inputIdentityFile then Inl IndexOutOfRange
     else
       let inputsToProcess = [inputLogin, inputNetworkPort, inputIdentityFile] in
       if custom then
         Inr (m\<lparr>inputs :=
                  foldl (\<lambda>ts i. ts[nat i := SetEnabled shouldDisableSSHArguments (ts ! nat i)])
                    (inputs m) inputsToProcess\<rparr>)
       else Inr m)"

definition updateViewPort :: "editModel \<Rightarrow> editModel" where
  "updateViewPort m = (if \<not> ready m then m\<lparr>ready := True\<rparr> else m)"

definition handleKeyboardEvent :: "KeyMsg \<Rightarrow> editModel \<Rightarrow> fault + (editModel \<times> Cmd)" where
  "handleKeyboardEvent msg m0 =
     (let m = m0\<lparr>title := defaultTitle\<rparr> in
      if matchesSave msg then Inr (save m)
      else if matchesCopyInputValue msg \<and> CopyInputValueEnabled (keyMap m) then
        andThen (handleCopyInputValueShortcut m) (\<lambda>m'. Inr (m', NilCmd))
      else if matchesDown msg \<or> matchesUp msg then Inr (inputFocusChange msg m)
      else if matchesDiscard msg then Inr (m, TeaCmd MsgClose)
      else focusedInputProcessKeyEvent msg m)"

fun Update :: "Msg \<Rightarrow> editModel \<Rightarrow> fault + (editModel \<times> Cmd)" where
  "Update (WindowSizeMsg w h) m = Inr (updateViewPort m, NilCmd)"
| "Update (TeaKeyMsg msg) m = handleKeyboardEvent msg m"
| "Update (DebouncedMessage wrappedMsg tag) m = Inr (handleDebouncedMessage wrappedMsg tag m)"
| "Update HostSSHConfigLoaded m =
     andThen (updateInputPlaceholders m) (\<lambda>m1.
     andThen (updateInputTitles m1) (\<lambda>m2. Inr (m2, NilCmd)))"
| "Update msg m = Inr (m, NilCmd)"

fun run :: "Msg list \<Rightarrow> editModel \<Rightarrow> fault + (editModel \<times> Cmd list)" where
  \<comment> \<open>The message loop: the messages are handled one at a time, in the order they arrive
      (section 5 of the spec); the commands returned are collected in that order.\<close>
  "run [] m = Inr (m, [])"
| "run (msg # rest) m =
     andThen (Update msg m) (\<lambda>(m1, cmd).
     andThen (run rest m1) (\<lambda>(m2, cmds). Inr (m2, cmd # cmds)))"

fun scheduleAll :: "Msg list \<Rightarrow> editModel \<Rightarrow> editModel \<times> Cmd list" where
  \<comment> \<open>A burst of schedule calls, each one complete before the next: the envelope of a call
      carries the form's tag at the time of the call, as \<open>focusedInputProcessKeyEvent\<close> fills it
      in, and \<open>handleDebouncedMessage\<close> handles it at once. The timers armed are returned in the
      order of the calls.\<close>
  "scheduleAll [] m = (m, [])"
| "scheduleAll (wrappedMsg # rest) m =
     (let (m1, timer) = handleDebouncedMessage wrappedMsg (debounceTag m) m;
          (m2, timers) = scheduleAll rest m1
      in (m2, timer # timers))"

section \<open>Example inputs\<close>

text \<open>
  \<open>strconv.ParseUint\<close> belongs to Go's library and is a parameter of the port validator. The
  examples need one instance: \<open>parseDecimal\<close> reads a plain decimal numeral (no sign, no prefix,
  no underscore, no leading zero) that fits the bit size, and rejects every other text, also the
  numerals of other bases that the library reads.
\<close>

definition digitValue :: "char \<Rightarrow> nat" where
  "digitValue c = of_char c - of_char CHR ''0''"

definition isDigit :: "char \<Rightarrow> bool" where
  "isDigit c = (of_char CHR ''0'' \<le> (of_char c :: nat) \<and> (of_char c :: nat) \<le> of_char CHR ''9'')"

definition parseDecimal :: "string \<Rightarrow> int \<Rightarrow> int \<Rightarrow> error + nat" where
  "parseDecimal s base bitSize =
     (if s = [] \<or> \<not> list_all isDigit s \<or> (hd s = CHR ''0'' \<and> s \<noteq> ''0'') then Inl ''invalid syntax''
      else
        let n = foldl (\<lambda>n c. 10 * n + digitValue c) 0 s
        in if n \<le> 2 ^ nat bitSize - 1 then Inr n else Inl ''value out of range'')"

definition exampleHost :: Host where
  "exampleHost = NewHost 7 ''web'' [] ''10.0.0.5'' [] [] [] []"

definition exampleStorage :: HostStorage where
  \<comment> \<open>A storage that holds \<open>exampleHost\<close> alone and gives a new record the id 8.\<close>
  "exampleStorage =
     \<lparr>GetResult = (\<lambda>i. if i = 7 then (exampleHost, None) else (zeroHost, Some ''host not found'')),
      SaveResult = (\<lambda>h. (if ID h = 0 then h\<lparr>ID := 8\<rparr> else h, None)),
      saveCalls = []\<rparr>"

definition exampleState :: ApplicationState where
  "exampleState =
     \<lparr>HostSSHConfig = \<lparr>Hostname = ''10.0.0.5'', IdentityFile = ''/k'', Port = ''22'', User = ''root''\<rparr>,
      Width = 80, Height = 24\<rparr>"

definition newForm :: editModel where
  \<comment> \<open>The form for a host that is not in the storage.\<close>
  "newForm = New parseDecimal 0 exampleStorage exampleState"

definition editForm :: editModel where
  \<comment> \<open>The form for the stored host.\<close>
  "editForm = New parseDecimal 7 exampleStorage exampleState"

definition typing :: "string \<Rightarrow> KeyMsg" where
  \<comment> \<open>A key (or a paste) that matches no binding and leaves the widget with the text \<open>s\<close>.\<close>
  "typing s =
     \<lparr>matchesSave = False, matchesCopyInputValue = False, matchesUp = False, matchesDown = False,
      matchesDiscard = False, widgetUpdate = (\<lambda>t. t\<lparr>Value := s\<rparr>)\<rparr>"

definition keyUp :: KeyMsg where
  "keyUp =
     \<lparr>matchesSave = False, matchesCopyInputValue = False, matchesUp = True, matchesDown = False,
      matchesDiscard = False, widgetUpdate = (\<lambda>t. t)\<rparr>"

definition keyDown :: KeyMsg where
  "keyDown =
     \<lparr>matchesSave = False, matchesCopyInputValue = False, matchesUp = False, matchesDown = True,
      matchesDiscard = False, widgetUpdate = (\<lambda>t. t)\<rparr>"

definition keySave :: KeyMsg where
  "keySave =
     \<lparr>matchesSave = True, matchesCopyInputValue = False, matchesUp = False, matchesDown = False,
      matchesDiscard = False, widgetUpdate = (\<lambda>t. t)\<rparr>"

definition staleForm :: editModel where
  \<comment> \<open>The form for the stored host after the user has typed \<open>db\<close> over the title, moved down to
      the address and emptied it.\<close>
  "staleForm =
     (case run [TeaKeyMsg (typing ''db''), TeaKeyMsg keyDown, TeaKeyMsg (typing [])] editForm of
        Inr (m, cmds) \<Rightarrow> m | Inl f \<Rightarrow> editForm)"

definition filledForm :: editModel where
  \<comment> \<open>The form for a new host after the user has typed \<open>db\<close> into the title.\<close>
  "filledForm =
     (case run [TeaKeyMsg (typing ''db'')] newForm of Inr (m, cmds) \<Rightarrow> m | Inl f \<Rightarrow> newForm)"

lemmas example_defs = editForm_def newForm_def New_def exampleStorage_def exampleState_def
  exampleHost_def NewHost_def zeroHost_def newInput_def input_New_def SetValue_def SetLabel_def
  Focus_def Blur_def getKeyMap_def typing_def keyDown_def keyUp_def keySave_def defaultTitle_def

lemmas form_defs = handleKeyboardEvent_def focusedInputProcessKeyEvent_def inputFocusChange_def
  save_def andThen_def inputAt_def copyInputValueFromTo_def validationError_def
  notEmptyValidator_def StringEmpty_def networkPortValidator_def saveHostAttribute_def
  SetCursor_def SetEnabled_def Let_def

section \<open>The host model: theorems\<close>

lemma Contains_single: "Contains s [c] = (c \<in> set s)"
  by (induction s) auto

lemma TrimSpace_examples:
  "TrimSpace ''root@10.0.0.5'' = ''root@10.0.0.5''"
  "TrimSpace ''10.0.0.5'' = ''10.0.0.5''"
  "TrimSpace [] = []"
  by (simp_all add: TrimSpace_def spaceRunes_def spaceWidth_def)

text \<open>
  C10. \<open>Clone\<close> returns a record with the title, description, address, login name, identity file
  path, remote port and password of the host it is called on, with the id zero and no resolved
  SSH configuration, and it leaves the host it is called on as it was.
\<close>

theorem Clone_copies_and_resets:
  "Title (snd (Clone h)) = Title h \<and> Description (snd (Clone h)) = Description h \<and>
   Address (snd (Clone h)) = Address h \<and> LoginName (snd (Clone h)) = LoginName h \<and>
   IdentityFilePath (snd (Clone h)) = IdentityFilePath h \<and>
   RemotePort (snd (Clone h)) = RemotePort h \<and> Password (snd (Clone h)) = Password h \<and>
   ID (snd (Clone h)) = 0 \<and> SSHClientConfig (snd (Clone h)) = None \<and> fst (Clone h) = h"
  by (simp add: Clone_def)

text \<open>
  C9. \<open>CmdSSHCopyID\<close> reads the resolved SSH configuration without a check: on a host whose
  pointer to it is nil the call faults with a nil-pointer dereference, and on a host that has one
  it returns the command built from the configuration's user, port, identity file and hostname.
\<close>

theorem CmdSSHCopyID_needs_config:
  "(SSHClientConfig h = None \<longrightarrow> CmdSSHCopyID copyIDCommand h = Inl NilPointerDereference) \<and>
   (\<forall>c. SSHClientConfig h = Some c \<longrightarrow>
      CmdSSHCopyID copyIDCommand h =
        Inr (copyIDCommand [OptionLoginName (User c), OptionRemotePort (Port c),
                            OptionPrivateKey (IdentityFile c), OptionAddress (Hostname c)]))"
  by (simp add: CmdSSHCopyID_def)

theorem CmdSSHCopyID_needs_config_witness:
  "\<forall>copyIDCommand.
     CmdSSHCopyID copyIDCommand exampleHost = Inl NilPointerDereference \<and>
     CmdSSHCopyID copyIDCommand
       (exampleHost\<lparr>SSHClientConfig := Some (HostSSHConfig exampleState)\<rparr>) =
       Inr (copyIDCommand [OptionLoginName ''root'', OptionRemotePort ''22'',
                           OptionPrivateKey ''/k'', OptionAddress ''10.0.0.5''])"
proof (intro allI conjI)
  fix copyIDCommand :: "ssh_Option list \<Rightarrow> string"
  have nil: "SSHClientConfig exampleHost = None"
    by (simp add: exampleHost_def NewHost_def)
  from CmdSSHCopyID_needs_config [of exampleHost copyIDCommand] nil
  show "CmdSSHCopyID copyIDCommand exampleHost = Inl NilPointerDereference" by blast
  let ?h = "exampleHost\<lparr>SSHClientConfig := Some (HostSSHConfig exampleState)\<rparr>"
  have some: "SSHClientConfig ?h = Some (HostSSHConfig exampleState)" by simp
  from CmdSSHCopyID_needs_config [of ?h copyIDCommand] some
  show "CmdSSHCopyID copyIDCommand ?h =
      Inr (copyIDCommand [OptionLoginName ''root'', OptionRemotePort ''22'',
                          OptionPrivateKey ''/k'', OptionAddress ''10.0.0.5''])"
    by (simp add: exampleState_def)
qed

text \<open>
  C2. On a host with the user-defined address \<open>root@10.0.0.5\<close> and the password \<open>x\<close>,
  \<open>CmdSSHConnect\<close> returns what the command builder makes of the address alone, whatever the
  builder: the return for a user-defined address comes before the password is looked at. With
  the builder of the spec the command is \<open>ssh root@10.0.0.5\<close>, with no password helper ahead of
  it. On the structured address \<open>10.0.0.5\<close> the same password is wrapped around the command.
\<close>

theorem CmdSSHConnect_user_defined_ignores_password:
  "CmdSSHConnect connectCommand (NewHost 7 ''web'' [] ''root@10.0.0.5'' [] [] [] ''x'') =
     connectCommand [OptionAddress ''root@10.0.0.5''] \<and>
   CmdSSHConnect ConnectCommand (NewHost 7 ''web'' [] ''root@10.0.0.5'' [] [] [] ''x'') =
     ''ssh root@10.0.0.5'' \<and>
   CmdSSHConnect ConnectCommand (NewHost 7 ''web'' [] ''10.0.0.5'' ''root'' ''/k'' ''22'' ''x'') =
     ''sshpass -p '' @ [CHR 0x27] @ ''x'' @ [CHR 0x27] @ '' ssh -i /k -p 22 root@10.0.0.5''"
  by (simp add: CmdSSHConnect_def IsUserDefinedSSHCommand_def NewHost_def TrimSpace_examples
      ConnectCommand_def)

section \<open>Saving the form\<close>

text \<open>
  The loop of \<open>save\<close> checks a field and, when it passes, copies its value into the host record
  before it turns to the next field. The two lemmas describe the loop on a list of indices all of
  whose fields pass, and on a list whose first failing field is known.
\<close>

lemma saveInputs_all_valid:
  "(\<And>j. j \<in> set js \<Longrightarrow> validationError (inputs m ! j) = None) \<Longrightarrow>
   saveInputs js m =
     Inr (m\<lparr>host := foldl (\<lambda>h j. saveHostAttribute j (Value (inputs m ! j)) h) (host m) js\<rparr>)"
proof (induction js arbitrary: m)
  case Nil
  show ?case by simp
next
  case (Cons i rest)
  let ?m = "m\<lparr>host := saveHostAttribute i (Value (inputs m ! i)) (host m)\<rparr>"
  have here: "validationError (inputs m ! i) = None" using Cons.prems by simp
  have "\<And>j. j \<in> set rest \<Longrightarrow> validationError (inputs ?m ! j) = None"
    using Cons.prems by simp
  from Cons.IH [OF this] here show ?case by simp
qed

lemma saveInputs_first_invalid:
  "(\<And>j. j \<in> set pre \<Longrightarrow> validationError (inputs m ! j) = None) \<Longrightarrow>
   validationError (inputs m ! i) = Some err \<Longrightarrow>
   saveInputs (pre @ i # post) m =
     Inl (m\<lparr>host := foldl (\<lambda>h j. saveHostAttribute j (Value (inputs m ! j)) h) (host m) pre,
            inputs := (inputs m)[i := (inputs m ! i)\<lparr>Err := Some err\<rparr>],
            title := Label (inputs m ! i) @ '' is not valid''\<rparr>)"
proof (induction pre arbitrary: m)
  case Nil
  then show ?case by simp
next
  case (Cons p pre)
  let ?m = "m\<lparr>host := saveHostAttribute p (Value (inputs m ! p)) (host m)\<rparr>"
  have here: "validationError (inputs m ! p) = None" using Cons.prems(1) by simp
  have a: "\<And>j. j \<in> set pre \<Longrightarrow> validationError (inputs ?m ! j) = None"
    using Cons.prems(1) by simp
  have b: "validationError (inputs ?m ! i) = Some err" using Cons.prems(2) by simp
  from Cons.IH [OF a b] here show ?case by simp
qed

lemma upt_split_at: "i < n \<Longrightarrow> [0..<n] = [0..<i] @ i # [Suc i..<n]"
proof -
  assume "i < n"
  then have "[0..<n] = [0..<i] @ [i..<n]"
    using upt_add_eq_append [of 0 i "n - i"] by simp
  with \<open>i < n\<close> show ?thesis by (simp add: upt_conv_Cons)
qed

lemma upt_six: "[0..<6] = [0, 1, 2, 3, 4, 5]"
  by (simp add: upt_rec)

lemma staleForm_facts:
  "length (inputs staleForm) = 6 \<and>
   Value (inputs staleForm ! 0) = ''db'' \<and>
   Label (inputs staleForm ! 1) = ''Host'' \<and>
   validationError (inputs staleForm ! 0) = None \<and>
   validationError (inputs staleForm ! 1) = Some ''value is required'' \<and>
   host staleForm = exampleHost \<and>
   saveCalls (hostStorage staleForm) = []"
  by (simp add: staleForm_def example_defs form_defs)

lemma filledForm_facts:
  "length (inputs filledForm) = 6 \<and>
   list_all (\<lambda>t. validationError t = None) (inputs filledForm) \<and>
   map Value (inputs filledForm) = [''db'', ''db'', [], [], [], []] \<and>
   host filledForm = zeroHost \<and>
   hostStorage filledForm = exampleStorage"
  by (simp add: filledForm_def example_defs form_defs)


text \<open>
  C8. When every field of the form passes its validator, \<open>save\<close> copies the value of every field
  into the host record (of a form of six fields: title, address, description, login name, remote
  port and identity file path, in this order of the indices), hands that record to the storage,
  and returns the sequence of three commands that emit close-form, then select-item with the id
  of the record the storage returned, then refresh-list.
\<close>

theorem save_valid_form:
  assumes "\<forall>j<length (inputs m). validationError (inputs m ! j) = None"
  shows "save m =
     (let h = foldl (\<lambda>h j. saveHostAttribute j (Value (inputs m ! j)) h) (host m)
                [0..<length (inputs m)]
      in (m\<lparr>host := h, hostStorage := (hostStorage m)\<lparr>saveCalls := saveCalls (hostStorage m) @ [h]\<rparr>\<rparr>,
          Sequence [TeaCmd MsgClose,
                    TeaCmd (HostListSelectItem (ID (fst (SaveResult (hostStorage m) h)))),
                    TeaCmd MsgRefreshRepo])) \<and>
   (length (inputs m) = 6 \<longrightarrow>
      foldl (\<lambda>h j. saveHostAttribute j (Value (inputs m ! j)) h) (host m) [0..<length (inputs m)] =
        (host m)\<lparr>Title := Value (inputs m ! 0), Address := Value (inputs m ! 1),
                 Description := Value (inputs m ! 2), LoginName := Value (inputs m ! 3),
                 RemotePort := Value (inputs m ! 4), IdentityFilePath := Value (inputs m ! 5)\<rparr>)"
proof
  have "saveInputs [0..<length (inputs m)] m =
     Inr (m\<lparr>host := foldl (\<lambda>h j. saveHostAttribute j (Value (inputs m ! j)) h) (host m)
                        [0..<length (inputs m)]\<rparr>)"
    using assms by (intro saveInputs_all_valid) simp
  then show "save m =
     (let h = foldl (\<lambda>h j. saveHostAttribute j (Value (inputs m ! j)) h) (host m)
                [0..<length (inputs m)]
      in (m\<lparr>host := h, hostStorage := (hostStorage m)\<lparr>saveCalls := saveCalls (hostStorage m) @ [h]\<rparr>\<rparr>,
          Sequence [TeaCmd MsgClose,
                    TeaCmd (HostListSelectItem (ID (fst (SaveResult (hostStorage m) h)))),
                    TeaCmd MsgRefreshRepo]))"
    by (simp add: save_def Let_def split: prod.splits)
next
  show "length (inputs m) = 6 \<longrightarrow>
      foldl (\<lambda>h j. saveHostAttribute j (Value (inputs m ! j)) h) (host m) [0..<length (inputs m)] =
        (host m)\<lparr>Title := Value (inputs m ! 0), Address := Value (inputs m ! 1),
                 Description := Value (inputs m ! 2), LoginName := Value (inputs m ! 3),
                 RemotePort := Value (inputs m ! 4), IdentityFilePath := Value (inputs m ! 5)\<rparr>"
    by (simp add: upt_six saveHostAttribute_def)
qed

theorem save_valid_form_witness:
  "list_all (\<lambda>t. validationError t = None) (inputs filledForm) \<and>
   save filledForm =
     (filledForm\<lparr>host := zeroHost\<lparr>Title := ''db'', Address := ''db''\<rparr>,
                 hostStorage := exampleStorage\<lparr>saveCalls := [zeroHost\<lparr>Title := ''db'', Address := ''db''\<rparr>]\<rparr>\<rparr>,
      Sequence [TeaCmd MsgClose, TeaCmd (HostListSelectItem 8), TeaCmd MsgRefreshRepo])"
proof -
  have ok: "\<forall>j<length (inputs filledForm). validationError (inputs filledForm ! j) = None"
    using filledForm_facts by (simp add: list_all_length)
  have vals: "Value (inputs filledForm ! 0) = ''db''" "Value (inputs filledForm ! 1) = ''db''"
    "Value (inputs filledForm ! 2) = []" "Value (inputs filledForm ! 3) = []"
    "Value (inputs filledForm ! 4) = []" "Value (inputs filledForm ! 5) = []"
    using filledForm_facts nth_map [of _ "inputs filledForm" Value, symmetric] by simp_all
  from save_valid_form [OF ok] filledForm_facts vals
  show ?thesis
    by (simp add: Let_def zeroHost_def exampleStorage_def)
qed


text \<open>
  C1, as amended. When the field at index \<open>i\<close> is the first whose validator rejects its value,
  \<open>save\<close> sets the form's title to the label of that field followed by \<open>is not valid\<close>, records the
  error on the field, returns no command and hands nothing to the storage. The host record in
  memory is the record before the call with the values of the fields before \<open>i\<close> copied in: it is
  unchanged when the first field fails, and otherwise the attributes bound to the fields that
  passed already hold the new values.
\<close>

theorem save_invalid_field:
  assumes "i < length (inputs m)"
    and "validationError (inputs m ! i) = Some err"
    and "\<forall>j<i. validationError (inputs m ! j) = None"
  shows "save m =
     (m\<lparr>host := foldl (\<lambda>h j. saveHostAttribute j (Value (inputs m ! j)) h) (host m) [0..<i],
        inputs := (inputs m)[i := (inputs m ! i)\<lparr>Err := Some err\<rparr>],
        title := Label (inputs m ! i) @ '' is not valid''\<rparr>, NilCmd)"
proof -
  have "saveInputs ([0..<i] @ i # [Suc i..<length (inputs m)]) m =
     Inl (m\<lparr>host := foldl (\<lambda>h j. saveHostAttribute j (Value (inputs m ! j)) h) (host m) [0..<i],
            inputs := (inputs m)[i := (inputs m ! i)\<lparr>Err := Some err\<rparr>],
            title := Label (inputs m ! i) @ '' is not valid''\<rparr>)"
    using assms(2,3) by (intro saveInputs_first_invalid) simp_all
  with assms(1) show ?thesis
    by (simp add: save_def upt_split_at [symmetric])
qed



theorem save_invalid_field_witness:
  "validationError (inputs staleForm ! 1) = Some ''value is required'' \<and>
   validationError (inputs staleForm ! 0) = None \<and>
   save staleForm =
     (staleForm\<lparr>host := exampleHost\<lparr>Title := ''db''\<rparr>,
                inputs := (inputs staleForm)[1 := (inputs staleForm ! 1)\<lparr>Err := Some ''value is required''\<rparr>],
                title := ''Host is not valid''\<rparr>, NilCmd)"
proof -
  have len: "1 < length (inputs staleForm)" using staleForm_facts by simp
  have bad: "validationError (inputs staleForm ! 1) = Some ''value is required''"
    using staleForm_facts by simp
  have good: "\<forall>j<1. validationError (inputs staleForm ! j) = None"
    using staleForm_facts by simp
  from save_invalid_field [OF len bad good] staleForm_facts
  show ?thesis by (simp add: saveHostAttribute_def)
qed


text \<open>
  The claim as written fails on the form for the stored host \<open>web\<close> whose title field has become
  \<open>db\<close> and whose address field is empty: the title passes and is copied, then the address is
  rejected, and the record in memory has the title \<open>db\<close> where it had \<open>web\<close>.
\<close>

theorem save_mutates_host_counterexample:
  "validationError (inputs staleForm ! 1) = Some ''value is required'' \<and>
   Title (host staleForm) = ''web'' \<and>
   Title (host (fst (save staleForm))) = ''db'' \<and>
   title (fst (save staleForm)) = ''Host is not valid'' \<and>
   snd (save staleForm) = NilCmd"
  by (simp add: staleForm_def example_defs form_defs)

section \<open>Moving the focus\<close>

lemma focusInputs_frame:
  "focusedInput (fst (focusInputs js (m, cmds))) = focusedInput m \<and>
   length (inputs (fst (focusInputs js (m, cmds)))) = length (inputs m)"
proof (induction js arbitrary: m cmds)
  case Nil
  show ?case by simp
next
  case (Cons i rest)
  show ?case
    by (simp only: focusInputs.simps Let_def Cons.IH split: if_splits)
       (simp)
qed

lemma inputFocusChange_step:
  "focusedInput (fst (inputFocusChange k m)) =
     (if matchesUp k \<and> 0 < focusedInput m then focusedInput m - 1
      else if matchesDown k \<and> focusedInput m < int (length (inputs m)) - 1 then focusedInput m + 1
      else focusedInput m) \<and>
   length (inputs (fst (inputFocusChange k m))) = length (inputs m)"
  by (simp add: inputFocusChange_def Let_def split_beta focusInputs_frame)

lemma navigate_in_range:
  "0 \<le> focusedInput m \<Longrightarrow> focusedInput m < int (length (inputs m)) \<Longrightarrow>
   0 \<le> focusedInput (foldl (\<lambda>m k. fst (inputFocusChange k m)) m ks) \<and>
   focusedInput (foldl (\<lambda>m k. fst (inputFocusChange k m)) m ks) <
     int (length (inputs (foldl (\<lambda>m k. fst (inputFocusChange k m)) m ks)))"
proof (induction ks arbitrary: m)
  case Nil
  then show ?case by simp
next
  case (Cons k ks)
  have "0 \<le> focusedInput (fst (inputFocusChange k m))"
    and "focusedInput (fst (inputFocusChange k m)) < int (length (inputs (fst (inputFocusChange k m))))"
    using inputFocusChange_step [of k m] Cons.prems by (auto split: if_splits)
  from Cons.IH [OF this] show ?case by simp
qed


text \<open>
  C7. From a focus index within the fields of the form, a key that matches only the up binding
  leaves the index at 0 unchanged and lowers any other index by one, a key that matches only the
  down binding leaves the index of the last field unchanged and raises any other index by one, the
  number of fields stays the same, and after any sequence of keys handled by \<open>inputFocusChange\<close>
  the index is still within the fields: there is no wraparound.
\<close>

theorem inputFocusChange_clamped:
  assumes "0 \<le> focusedInput m" and "focusedInput m < int (length (inputs m))"
  shows "(matchesUp k \<and> \<not> matchesDown k \<longrightarrow>
            focusedInput (fst (inputFocusChange k m)) =
              (if focusedInput m = 0 then 0 else focusedInput m - 1)) \<and>
         (matchesDown k \<and> \<not> matchesUp k \<longrightarrow>
            focusedInput (fst (inputFocusChange k m)) =
              (if focusedInput m = int (length (inputs m)) - 1 then int (length (inputs m)) - 1
               else focusedInput m + 1)) \<and>
         length (inputs (fst (inputFocusChange k m))) = length (inputs m) \<and>
         (\<forall>ks. 0 \<le> focusedInput (foldl (\<lambda>m k. fst (inputFocusChange k m)) m ks) \<and>
               focusedInput (foldl (\<lambda>m k. fst (inputFocusChange k m)) m ks) <
                 int (length (inputs (foldl (\<lambda>m k. fst (inputFocusChange k m)) m ks))))"
proof (intro conjI allI impI)
  show "length (inputs (fst (inputFocusChange k m))) = length (inputs m)"
    using inputFocusChange_step by blast
next
  assume "matchesUp k \<and> \<not> matchesDown k"
  then show "focusedInput (fst (inputFocusChange k m)) =
      (if focusedInput m = 0 then 0 else focusedInput m - 1)"
    using inputFocusChange_step [of k m] assms by auto
next
  assume "matchesDown k \<and> \<not> matchesUp k"
  then show "focusedInput (fst (inputFocusChange k m)) =
      (if focusedInput m = int (length (inputs m)) - 1 then int (length (inputs m)) - 1
       else focusedInput m + 1)"
    using inputFocusChange_step [of k m] assms by auto
next
  fix ks
  note r = navigate_in_range [OF assms, of ks]
  from r show "0 \<le> focusedInput (foldl (\<lambda>m k. fst (inputFocusChange k m)) m ks)"
    by blast
  from r show "focusedInput (foldl (\<lambda>m k. fst (inputFocusChange k m)) m ks) <
      int (length (inputs (foldl (\<lambda>m k. fst (inputFocusChange k m)) m ks)))"
    by blast
qed

theorem inputFocusChange_clamped_witness:
  "focusedInput editForm = 0 \<and> length (inputs editForm) = 6 \<and>
   focusedInput (fst (inputFocusChange keyUp editForm)) = 0 \<and>
   focusedInput (fst (inputFocusChange keyDown editForm)) = 1 \<and>
   focusedInput (foldl (\<lambda>m k. fst (inputFocusChange k m)) editForm
      [keyDown, keyDown, keyDown, keyDown, keyDown, keyDown, keyDown]) = 5 \<and>
   focusedInput (foldl (\<lambda>m k. fst (inputFocusChange k m)) editForm
      [keyDown, keyDown, keyUp, keyUp, keyUp]) = 0"
proof -
  have f: "focusedInput editForm = 0" "length (inputs editForm) = 6"
    by (simp_all add: example_defs)
  have a: "0 \<le> focusedInput editForm" "focusedInput editForm < int (length (inputs editForm))"
    using f by simp_all
  have up: "matchesUp keyUp \<and> \<not> matchesDown keyUp" by (simp add: keyUp_def)
  have down: "matchesDown keyDown \<and> \<not> matchesUp keyDown" by (simp add: keyDown_def)
  from inputFocusChange_clamped [OF a, of keyUp] up f
  have 1: "focusedInput (fst (inputFocusChange keyUp editForm)) = 0" by simp
  from inputFocusChange_clamped [OF a, of keyDown] down f
  have 2: "focusedInput (fst (inputFocusChange keyDown editForm)) = 1" by simp
  have 3: "focusedInput (foldl (\<lambda>m k. fst (inputFocusChange k m)) editForm
      [keyDown, keyDown, keyDown, keyDown, keyDown, keyDown, keyDown]) = 5"
    using up down f by (simp add: inputFocusChange_step)
  have 4: "focusedInput (foldl (\<lambda>m k. fst (inputFocusChange k m)) editForm
      [keyDown, keyDown, keyUp, keyUp, keyUp]) = 0"
    using up down f by (simp add: inputFocusChange_step)
  from f 1 2 3 4 show ?thesis by simp
qed


section \<open>Typing into the title\<close>

text \<open>
  C6. A key that reaches \<open>focusedInputProcessKeyEvent\<close> while the title is focused is applied to
  the title widget. If the host was not found in the storage when the form was built and the
  title and the address held the same text before the key, the new text of the title is then
  copied into the address widget (with the cursor at its end and the address validator's verdict
  on it as the widget's error); otherwise the address widget is left as it was. No command is
  returned. The form has its title and address widgets, and the address widget its validator, as
  \<open>New\<close> builds them.
\<close>

theorem title_key_mirrors_to_address:
  assumes "focusedInput m = inputTitle" and "1 < length (inputs m)"
    and "Validate (inputs m ! 1) = Some validate"
  shows "focusedInputProcessKeyEvent k m =
     Inr (if isNewHost m \<and> Value (inputs m ! 0) = Value (inputs m ! 1)
          then m\<lparr>inputs := (inputs m)
                  [0 := widgetUpdate k (inputs m ! 0),
                   1 := (inputs m ! 1)
                          \<lparr>Value := Value (widgetUpdate k (inputs m ! 0)),
                           CursorPos := int (length (Value (widgetUpdate k (inputs m ! 0)))),
                           Err := validate (Value (widgetUpdate k (inputs m ! 0)))\<rparr>]\<rparr>
          else m\<lparr>inputs := (inputs m)[0 := widgetUpdate k (inputs m ! 0)]\<rparr>, NilCmd)"
proof -
  have validator: "t\<lparr>Value := v, CursorPos := c, Validate := Some validate, Err := e\<rparr> =
      t\<lparr>Value := v, CursorPos := c, Err := e\<rparr>" if "Validate t = Some validate" for t :: Input and v c e
    using that by (intro Input.equality) simp_all
  have nonempty: "inputs m \<noteq> []" using assms(2) by auto
  from assms nonempty show ?thesis
    by (simp add: focusedInputProcessKeyEvent_def copyInputValueFromTo_def andThen_def inputAt_def
        SetValue_def SetCursor_def Let_def validator)
qed

theorem title_key_mirrors_to_address_witness:
  "focusedInput newForm = 0 \<and> isNewHost newForm \<and>
   map Value (inputs newForm) = [[], [], [], [], [], []] \<and>
   map_sum id (\<lambda>(m, c). (map Value (inputs m), c)) (focusedInputProcessKeyEvent (typing ''abc'') newForm) =
     Inr ([''abc'', ''abc'', [], [], [], []], NilCmd) \<and>
   focusedInput editForm = 0 \<and> \<not> isNewHost editForm \<and>
   map_sum id (\<lambda>(m, c). (map Value (inputs m), c)) (focusedInputProcessKeyEvent (typing ''abc'') editForm) =
     Inr ([''abc'', ''10.0.0.5'', [], [], [], []], NilCmd)"
proof -
  have n: "focusedInput newForm = 0" "1 < length (inputs newForm)"
    "Validate (inputs newForm ! 1) = Some notEmptyValidator" "isNewHost newForm"
    "map Value (inputs newForm) = [[], [], [], [], [], []]"
    by (simp_all add: example_defs)
  have e: "focusedInput editForm = 0" "1 < length (inputs editForm)"
    "Validate (inputs editForm ! 1) = Some notEmptyValidator" "\<not> isNewHost editForm"
    by (simp_all add: example_defs)
  have 1: "map_sum id (\<lambda>(m, c). (map Value (inputs m), c))
      (focusedInputProcessKeyEvent (typing ''abc'') newForm) =
     Inr ([''abc'', ''abc'', [], [], [], []], NilCmd)"
    unfolding title_key_mirrors_to_address [OF n(1,2,3)]
    by (simp add: example_defs)
  have 2: "map_sum id (\<lambda>(m, c). (map Value (inputs m), c))
      (focusedInputProcessKeyEvent (typing ''abc'') editForm) =
     Inr ([''abc'', ''10.0.0.5'', [], [], [], []], NilCmd)"
    unfolding title_key_mirrors_to_address [OF e(1,2,3)]
    by (simp add: example_defs)
  from n e 1 2 show ?thesis by simp
qed


section \<open>The address mode\<close>

text \<open>
  What \<open>TrimSpace\<close> returns. A run of white space is a concatenation of encodings from
  \<open>spaceRunes\<close>. The text splits into a run of white space, the trimmed text and a run of white
  space, and the trimmed text neither starts nor ends with a white-space rune; the trimmed text
  is the only text with these properties.
\<close>

lemma HasPrefix_append: "HasPrefix s p = (\<exists>x. s = p @ x)"
  by (induction s p rule: HasPrefix.induct) auto

lemma runes_nonempty: "[] \<notin> set spaceRunes"
  by (simp add: spaceRunes_def)

lemma rev_runes_nonempty: "[] \<notin> set (map rev spaceRunes)"
  by (simp add: spaceRunes_def)

lemma spaceWidth_zero:
  "[] \<notin> set runes \<Longrightarrow> (spaceWidth runes s = 0) = (\<nexists>r x. r \<in> set runes \<and> s = r @ x)"
proof -
  assume ne: "[] \<notin> set runes"
  show ?thesis
  proof (cases "filter (HasPrefix s) runes")
    case Nil
    then have "\<forall>r\<in>set runes. \<not> HasPrefix s r" by (simp add: filter_empty_conv)
    with Nil show ?thesis by (auto simp: spaceWidth_def HasPrefix_append)
  next
    case (Cons r rest)
    then have "r \<in> set (filter (HasPrefix s) runes)" by simp
    then have "r \<in> set runes" "HasPrefix s r" by simp_all
    with Cons ne show ?thesis by (auto simp: spaceWidth_def HasPrefix_append)
  qed
qed

lemma spaceWidth_rune:
  "spaceWidth runes s \<noteq> 0 \<Longrightarrow> \<exists>r x. r \<in> set runes \<and> s = r @ x \<and> spaceWidth runes s = length r"
proof -
  assume w: "spaceWidth runes s \<noteq> 0"
  then obtain r rest where f: "filter (HasPrefix s) runes = r # rest"
    by (cases "filter (HasPrefix s) runes") (auto simp: spaceWidth_def)
  then have "r \<in> set (filter (HasPrefix s) runes)" by simp
  then have "r \<in> set runes" "HasPrefix s r" by simp_all
  with f show ?thesis by (auto simp: spaceWidth_def HasPrefix_append)
qed

lemma trimLeft_splits:
  "[] \<notin> set runes \<Longrightarrow>
   \<exists>rs. set rs \<subseteq> set runes \<and> s = concat rs @ trimLeft runes s \<and>
        (\<nexists>r x. r \<in> set runes \<and> trimLeft runes s = r @ x)"
proof (induction runes s rule: trimLeft.induct)
  case (1 runes)
  then have "set [] \<subseteq> set runes \<and> [] = concat [] @ trimLeft runes [] \<and>
      (\<nexists>r x. r \<in> set runes \<and> trimLeft runes [] = r @ x)"
    by auto
  then show ?case by blast
next
  case (2 runes c cs)
  show ?case
  proof (cases "spaceWidth runes (c # cs) = 0")
    case True
    then have "\<nexists>r x. r \<in> set runes \<and> c # cs = r @ x"
      using spaceWidth_zero [OF "2.prems"] by blast
    with True have "set [] \<subseteq> set runes \<and> c # cs = concat [] @ trimLeft runes (c # cs) \<and>
        (\<nexists>r x. r \<in> set runes \<and> trimLeft runes (c # cs) = r @ x)"
      by simp
    then show ?thesis by blast
  next
    case False
    then obtain r x where r: "r \<in> set runes" "c # cs = r @ x" "spaceWidth runes (c # cs) = length r"
      using spaceWidth_rune by blast
    have "r \<noteq> []" using r(1) "2.prems" by auto
    then have rest: "drop (spaceWidth runes (c # cs) - 1) cs = x"
      using r(2,3) by (cases r) auto
    from "2.IH" [OF False "2.prems"] rest
    obtain rs where rs: "set rs \<subseteq> set runes" "x = concat rs @ trimLeft runes x"
      "\<nexists>r' y. r' \<in> set runes \<and> trimLeft runes x = r' @ y"
      by auto
    have t: "trimLeft runes (c # cs) = trimLeft runes x"
      using False rest by simp
    have "set (r # rs) \<subseteq> set runes \<and> c # cs = concat (r # rs) @ trimLeft runes (c # cs) \<and>
        (\<nexists>r' y. r' \<in> set runes \<and> trimLeft runes (c # cs) = r' @ y)"
      using r(1,2) rs t by auto
    then show ?thesis by blast
  qed
qed

lemma TrimSpace_splits:
  "(\<exists>before after. set before \<subseteq> set spaceRunes \<and> set after \<subseteq> set spaceRunes \<and>
      s = concat before @ TrimSpace s @ concat after) \<and>
   (\<nexists>r x. r \<in> set spaceRunes \<and> TrimSpace s = r @ x) \<and>
   (\<nexists>r x. r \<in> set spaceRunes \<and> TrimSpace s = x @ r)"
proof -
  let ?t1 = "trimLeft spaceRunes s"
  let ?u = "trimLeft (map rev spaceRunes) (rev ?t1)"
  have t: "TrimSpace s = rev ?u" by (simp add: TrimSpace_def)
  from trimLeft_splits [OF runes_nonempty, of s]
  obtain before where b: "set before \<subseteq> set spaceRunes" "s = concat before @ ?t1"
    "\<nexists>r x. r \<in> set spaceRunes \<and> ?t1 = r @ x"
    by blast
  from trimLeft_splits [OF rev_runes_nonempty, of "rev ?t1"]
  obtain rs where a: "set rs \<subseteq> set (map rev spaceRunes)" "rev ?t1 = concat rs @ ?u"
    "\<nexists>r x. r \<in> set (map rev spaceRunes) \<and> ?u = r @ x"
    by blast
  let ?after = "map rev (rev rs)"
  have "rev (rev ?t1) = rev (concat rs @ ?u)" using a(2) by simp
  then have t1: "?t1 = TrimSpace s @ concat ?after"
    by (simp add: t rev_concat)
  have after: "set ?after \<subseteq> set spaceRunes"
    using a(1) by (auto simp: image_iff)
  have split: "s = concat before @ TrimSpace s @ concat ?after"
    using b(2) t1 by simp
  have lead: "\<nexists>r x. r \<in> set spaceRunes \<and> TrimSpace s = r @ x"
  proof
    assume "\<exists>r x. r \<in> set spaceRunes \<and> TrimSpace s = r @ x"
    then obtain r x where "r \<in> set spaceRunes" "TrimSpace s = r @ x" by blast
    then have "r \<in> set spaceRunes \<and> ?t1 = r @ (x @ concat ?after)" using t1 by simp
    with b(3) show False by blast
  qed
  have trail: "\<nexists>r x. r \<in> set spaceRunes \<and> TrimSpace s = x @ r"
  proof
    assume "\<exists>r x. r \<in> set spaceRunes \<and> TrimSpace s = x @ r"
    then obtain r x where r: "r \<in> set spaceRunes" "TrimSpace s = x @ r" by blast
    then have "rev (rev ?u) = rev (x @ r)" using t by simp
    then have "rev r \<in> set (map rev spaceRunes) \<and> ?u = rev r @ rev x" using r(1) by simp
    with a(3) show False by blast
  qed
  from b(1) after split lead trail show ?thesis by blast
qed

text \<open>
  Three facts about the table of encodings, each by evaluation: a text that starts with a rune
  starts with no rune of another length, the same holds from the end, and no rune's first byte is
  a later byte of a rune.
\<close>

lemma leading_all:
  "list_all (\<lambda>r. \<forall>x. spaceWidth spaceRunes (r @ x) = length r) spaceRunes"
  by (simp add: spaceRunes_def spaceWidth_def)

lemma trailing_all:
  "list_all (\<lambda>r. \<forall>x. spaceWidth (map rev spaceRunes) (r @ x) = length r) (map rev spaceRunes)"
  by (simp add: spaceRunes_def spaceWidth_def)

lemma lead_all:
  "list_all (\<lambda>r. list_all (\<lambda>r'. hd r' \<notin> set (tl r)) spaceRunes) spaceRunes"
  by (simp add: spaceRunes_def)

lemma spaceWidth_leading_rune:
  "r \<in> set spaceRunes \<Longrightarrow> spaceWidth spaceRunes (r @ x) = length r"
  using leading_all by (simp add: list_all_iff)

lemma spaceWidth_trailing_rune:
  "r \<in> set (map rev spaceRunes) \<Longrightarrow> spaceWidth (map rev spaceRunes) (r @ x) = length r"
  using trailing_all by (auto simp only: list_all_iff)

lemma lead_bytes: "r \<in> set spaceRunes \<Longrightarrow> r' \<in> set spaceRunes \<Longrightarrow> hd r' \<notin> set (tl r)"
  using lead_all by (auto simp only: list_all_iff)

lemma trimLeft_strips:
  assumes ne: "[] \<notin> set runes"
    and w: "\<And>r x. r \<in> set runes \<Longrightarrow> spaceWidth runes (r @ x) = length r"
  shows "set rs \<subseteq> set runes \<Longrightarrow> trimLeft runes (concat rs @ x) = trimLeft runes x"
proof (induction rs)
  case Nil
  show ?case by simp
next
  case (Cons r rs)
  then have r: "r \<in> set runes" and rs: "set rs \<subseteq> set runes" by simp_all
  with ne obtain c cs where rc: "r = c # cs" by (cases r) auto
  have "spaceWidth runes (c # (cs @ concat rs @ x)) = Suc (length cs)"
    using w [OF r, of "concat rs @ x"] by (simp add: rc)
  then have "trimLeft runes (c # (cs @ concat rs @ x)) = trimLeft runes (concat rs @ x)"
    by simp
  with Cons.IH [OF rs] show ?case by (simp add: rc)
qed

lemma trimLeft_fixed:
  "[] \<notin> set runes \<Longrightarrow> (\<nexists>r y. r \<in> set runes \<and> x = r @ y) \<Longrightarrow> trimLeft runes x = x"
  using spaceWidth_zero [of runes x] by (cases x) simp_all

lemma hd_concat_rune:
  "[] \<notin> set rs \<Longrightarrow> concat rs \<noteq> [] \<Longrightarrow> \<exists>r\<in>set rs. hd (concat rs) = hd r"
  by (cases rs) auto

lemma no_rune_across:
  assumes t: "t \<noteq> []" and lead: "\<nexists>r x. r \<in> set spaceRunes \<and> t = r @ x"
    and after: "set after \<subseteq> set spaceRunes"
  shows "\<nexists>r x. r \<in> set spaceRunes \<and> t @ concat after = r @ x"
proof
  assume "\<exists>r x. r \<in> set spaceRunes \<and> t @ concat after = r @ x"
  then obtain r x where r: "r \<in> set spaceRunes" and eq: "t @ concat after = r @ x" by blast
  from eq obtain w where "(t = r @ w \<and> w @ concat after = x) \<or> (t @ w = r \<and> concat after = w @ x)"
    by (auto simp: append_eq_append_conv2)
  with lead r have w: "t @ w = r" "concat after = w @ x" by blast+
  have "w \<noteq> []" using w(1) lead r by auto
  then have in_tail: "hd w \<in> set (tl r)" using w(1) t by (cases t; cases w) auto
  have "concat after \<noteq> []" using w(2) \<open>w \<noteq> []\<close> by simp
  moreover have "[] \<notin> set after" using after runes_nonempty by blast
  ultimately obtain r' where "r' \<in> set after" "hd (concat after) = hd r'"
    using hd_concat_rune by blast
  then have "r' \<in> set spaceRunes" "hd r' = hd w" using after w(2) \<open>w \<noteq> []\<close> by auto
  with lead_bytes [OF r] in_tail show False by metis
qed

lemma TrimSpace_unique:
  assumes before: "set before \<subseteq> set spaceRunes" and after: "set after \<subseteq> set spaceRunes"
    and split: "s = concat before @ t @ concat after"
    and lead: "\<nexists>r x. r \<in> set spaceRunes \<and> t = r @ x"
    and trail: "\<nexists>r x. r \<in> set spaceRunes \<and> t = x @ r"
  shows "TrimSpace s = t"
proof (cases "t = []")
  case True
  have "set (before @ after) \<subseteq> set spaceRunes" using before after by simp
  from trimLeft_strips [OF runes_nonempty spaceWidth_leading_rune this, of "[]"]
  have "trimLeft spaceRunes s = []" using split True by simp
  with True show ?thesis by (simp add: TrimSpace_def)
next
  case False
  have "trimLeft spaceRunes s = trimLeft spaceRunes (t @ concat after)"
    using trimLeft_strips [OF runes_nonempty spaceWidth_leading_rune before] split by simp
  also have "\<dots> = t @ concat after"
    using no_rune_across [OF False lead after] by (intro trimLeft_fixed runes_nonempty)
  finally have left: "trimLeft spaceRunes s = t @ concat after" .
  let ?rs = "map rev (rev after)"
  have rs: "set ?rs \<subseteq> set (map rev spaceRunes)" using after by auto
  have "rev (t @ concat after) = concat ?rs @ rev t" by (simp add: rev_concat)
  then have "trimLeft (map rev spaceRunes) (rev (t @ concat after)) =
      trimLeft (map rev spaceRunes) (rev t)"
    using trimLeft_strips [OF rev_runes_nonempty spaceWidth_trailing_rune rs] by simp
  also have "\<dots> = rev t"
  proof (intro trimLeft_fixed rev_runes_nonempty notI)
    assume "\<exists>r y. r \<in> set (map rev spaceRunes) \<and> rev t = r @ y"
    then obtain r y where "r \<in> set (map rev spaceRunes)" "rev t = r @ y" by blast
    then have "rev r \<in> set spaceRunes" "rev (rev t) = rev (r @ y)" by auto
    then have "rev r \<in> set spaceRunes \<and> t = rev y @ rev r" by simp
    with trail show False by blast
  qed
  finally show ?thesis by (simp add: TrimSpace_def left)
qed

lemma TrimSpace_white_space_examples:
  "TrimSpace ''  10.0.0.5 '' = ''10.0.0.5''"
  "TrimSpace ([CHR 0x09] @ ''root@10.0.0.5'' @ [CHR 0x0D, CHR 0x0A]) = ''root@10.0.0.5''"
  "TrimSpace ([CHR 0xC2, CHR 0xA0] @ ''a b'' @ [CHR 0xE2, CHR 0x80, CHR 0x89, CHR 0x20]) = ''a b''"
  "TrimSpace ''   '' = []"
  by (simp_all add: TrimSpace_def spaceRunes_def spaceWidth_def)

lemma address_mode_examples:
  "\<not> IsUserDefinedSSHCommand (exampleHost\<lparr>Address := ''  10.0.0.5 ''\<rparr>)"
  "IsUserDefinedSSHCommand (exampleHost\<lparr>Address := [CHR 0x09] @ ''root@10.0.0.5'' @ [CHR 0x0D, CHR 0x0A]\<rparr>)"
  "IsUserDefinedSSHCommand
     (exampleHost\<lparr>Address := [CHR 0xC2, CHR 0xA0] @ ''a b'' @ [CHR 0xE2, CHR 0x80, CHR 0x89, CHR 0x20]\<rparr>)"
  "\<not> IsUserDefinedSSHCommand (exampleHost\<lparr>Address := ''   ''\<rparr>)"
  using TrimSpace_white_space_examples by (simp_all add: IsUserDefinedSSHCommand_def)

text \<open>
  C5. The text that \<open>TrimSpace\<close> returns for the address is exactly the address with the
  surrounding white space trimmed: the address is a run of white space, that text and a run of
  white space, and that text neither starts nor ends with a white-space rune; no other text is so.
  \<open>IsUserDefinedSSHCommand\<close> holds exactly when this trimmed text contains a space or an \<open>@\<close>,
  and \<open>isCustomConnectString\<close> of the form returns what \<open>IsUserDefinedSSHCommand\<close> returns on a
  host whose address is the text of the address widget (the form has that widget whenever it has
  two fields).
\<close>

theorem address_mode_detector:
  "(TrimSpace (Address h) = t) =
     (\<exists>before after. set before \<subseteq> set spaceRunes \<and> set after \<subseteq> set spaceRunes \<and>
        Address h = concat before @ t @ concat after \<and>
        (\<nexists>r x. r \<in> set spaceRunes \<and> t = r @ x) \<and>
        (\<nexists>r x. r \<in> set spaceRunes \<and> t = x @ r)) \<and>
   IsUserDefinedSSHCommand h =
     (CHR '' '' \<in> set (TrimSpace (Address h)) \<or> CHR ''@'' \<in> set (TrimSpace (Address h))) \<and>
   isCustomConnectString m =
     (if 1 < length (inputs m)
      then Inr (IsUserDefinedSSHCommand (h\<lparr>Address := Value (inputs m ! 1)\<rparr>))
      else Inl IndexOutOfRange)"
proof (intro conjI)
  show "(TrimSpace (Address h) = t) =
     (\<exists>before after. set before \<subseteq> set spaceRunes \<and> set after \<subseteq> set spaceRunes \<and>
        Address h = concat before @ t @ concat after \<and>
        (\<nexists>r x. r \<in> set spaceRunes \<and> t = r @ x) \<and>
        (\<nexists>r x. r \<in> set spaceRunes \<and> t = x @ r))"
  proof
    assume "TrimSpace (Address h) = t"
    with TrimSpace_splits [of "Address h"] show "\<exists>before after.
        set before \<subseteq> set spaceRunes \<and> set after \<subseteq> set spaceRunes \<and>
        Address h = concat before @ t @ concat after \<and>
        (\<nexists>r x. r \<in> set spaceRunes \<and> t = r @ x) \<and>
        (\<nexists>r x. r \<in> set spaceRunes \<and> t = x @ r)"
      by blast
  next
    assume "\<exists>before after.
        set before \<subseteq> set spaceRunes \<and> set after \<subseteq> set spaceRunes \<and>
        Address h = concat before @ t @ concat after \<and>
        (\<nexists>r x. r \<in> set spaceRunes \<and> t = r @ x) \<and>
        (\<nexists>r x. r \<in> set spaceRunes \<and> t = x @ r)"
    then show "TrimSpace (Address h) = t"
      using TrimSpace_unique by blast
  qed
next
  show "IsUserDefinedSSHCommand h =
     (CHR '' '' \<in> set (TrimSpace (Address h)) \<or> CHR ''@'' \<in> set (TrimSpace (Address h)))"
    by (simp add: IsUserDefinedSSHCommand_def Contains_single Let_def)
next
  show "isCustomConnectString m =
     (if 1 < length (inputs m)
      then Inr (IsUserDefinedSSHCommand (h\<lparr>Address := Value (inputs m ! 1)\<rparr>))
      else Inl IndexOutOfRange)"
    by (simp add: IsUserDefinedSSHCommand_def isCustomConnectString_def andThen_def inputAt_def
        Let_def)
qed

text \<open>
  On a structured address \<open>updateInputTitles\<close> changes nothing: the only call of \<open>SetEnabled\<close> is
  under the test for a user-defined address.
\<close>

lemma updateInputTitles_structured:
  "isCustomConnectString m = Inr False \<Longrightarrow> 5 < length (inputs m) \<Longrightarrow> updateInputTitles m = Inr m"
  by (simp add: updateInputTitles_def andThen_def)


text \<open>
  C3. The form for the stored host, with the address focused: after the address has become
  \<open>root@10.0.0.5\<close> and the configuration has been loaded, the login, port and identity file
  fields are disabled. After the address has gone back to \<open>10.0.0.5\<close> and the configuration has
  been loaded again, the address is structured and the placeholders say \<open>default\<close>, but the three
  fields are still disabled.
\<close>

theorem config_loaded_keeps_fields_disabled:
  "map_sum id (\<lambda>(m, cmds). (isCustomConnectString m, map Enabled (inputs m), map Placeholder (drop 3 (inputs m))))
     (run [TeaKeyMsg keyDown, TeaKeyMsg (typing ''root@10.0.0.5''), HostSSHConfigLoaded] editForm) =
     Inr (Inr True, [True, True, True, False, False, False],
          [''readonly: root'', ''readonly: 22'', ''readonly: /k'']) \<and>
   map_sum id (\<lambda>(m, cmds). (isCustomConnectString m, map Enabled (inputs m), map Placeholder (drop 3 (inputs m))))
     (run [TeaKeyMsg keyDown, TeaKeyMsg (typing ''root@10.0.0.5''), HostSSHConfigLoaded,
           TeaKeyMsg (typing ''10.0.0.5''), HostSSHConfigLoaded] editForm) =
     Inr (Inr False, [True, True, True, False, False, False],
          [''default: root'', ''default: 22'', ''default: /k''])"
  by (simp add: example_defs form_defs isCustomConnectString_def updateInputTitles_def
      updateInputPlaceholders_def TrimSpace_examples)


section \<open>The debounce protocol\<close>

lemma scheduleAll_shape:
  "fst (scheduleAll msgs m) = m\<lparr>debounceTag := debounceTag m + of_nat (length msgs)\<rparr> \<and>
   length (snd (scheduleAll msgs m)) = length msgs \<and>
   (\<forall>i<length msgs. snd (scheduleAll msgs m) ! i = Tick (msgs ! i) (debounceTag m + of_nat i))"
proof (induction msgs arbitrary: m)
  case Nil
  show ?case by simp
next
  case (Cons w rest)
  let ?m1 = "m\<lparr>debounceTag := debounceTag m + 1\<rparr>"
  note IH = Cons.IH [of ?m1]
  have step: "scheduleAll (w # rest) m =
      (fst (scheduleAll rest ?m1), Tick w (debounceTag m) # snd (scheduleAll rest ?m1))"
    by (simp add: handleDebouncedMessage_def split_beta)
  show ?case
  proof (intro conjI allI impI)
    show "fst (scheduleAll (w # rest) m) = m\<lparr>debounceTag := debounceTag m + of_nat (length (w # rest))\<rparr>"
      using IH by (simp add: step add.assoc del: scheduleAll.simps)
    show "length (snd (scheduleAll (w # rest) m)) = length (w # rest)"
      using IH by (simp add: step del: scheduleAll.simps)
    fix i assume "i < length (w # rest)"
    then show "snd (scheduleAll (w # rest) m) ! i = Tick ((w # rest) ! i) (debounceTag m + of_nat i)"
      using IH by (cases i) (simp_all add: step add.assoc del: scheduleAll.simps)
  qed
qed

lemma mset_map_filter:
  "mset (List.map_filter f xs) = image_mset (the \<circ> f) (filter_mset (\<lambda>x. f x \<noteq> None) (mset xs))"
  by (simp add: List.map_filter_def)

lemma map_filter_only_last:
  assumes "xs \<noteq> []" and "\<forall>i<length xs. f (xs ! i) = (if i = length xs - 1 then Some y else None)"
  shows "List.map_filter f xs = [y]"
proof -
  have "xs = butlast xs @ [last xs]" using assms(1) by simp
  have drop: "\<forall>x\<in>set (butlast xs). f x = None"
  proof
    fix x assume "x \<in> set (butlast xs)"
    then obtain i where "i < length (butlast xs)" "butlast xs ! i = x"
      by (auto simp: in_set_conv_nth)
    then have "i < length xs - 1" "xs ! i = x" by (simp_all add: nth_butlast)
    with assms(2) show "f x = None" by auto
  qed
  have keep: "f (last xs) = Some y"
    using assms by (simp add: last_conv_nth)
  have "List.map_filter f (butlast xs) = []"
    using drop by (simp add: List.map_filter_def filter_empty_conv)
  moreover have "List.map_filter f [last xs] = [y]"
    using keep by (simp add: List.map_filter_def)
  ultimately have "List.map_filter f (butlast xs @ [last xs]) = [y]"
    by (simp add: List.map_filter_def)
  with \<open>xs = butlast xs @ [last xs]\<close> show ?thesis by simp
qed


text \<open>
  In a burst of one or more schedule calls (at most \<open>2 ^ 64\<close>, the number of tags) in which the
  envelope of each call is handled before the next call is made, and whatever the order in which
  the timers then fire, the timer of the
  last call delivers its message and the timer of every earlier call delivers none: the messages
  delivered are the message of the last call alone.
\<close>

proposition debounce_delivers_last:
  assumes "msgs \<noteq> []" and "length msgs \<le> 2 ^ 64"
    and "mset order = mset (snd (scheduleAll msgs m))"
  shows "(\<forall>i<length msgs.
            timerFires (fst (scheduleAll msgs m)) (snd (scheduleAll msgs m) ! i) =
              (if i = length msgs - 1 then Some (msgs ! i) else None)) \<and>
         List.map_filter (timerFires (fst (scheduleAll msgs m))) order = [last msgs]"
proof
  let ?m' = "fst (scheduleAll msgs m)" and ?timers = "snd (scheduleAll msgs m)"
  note shape = scheduleAll_shape [of msgs m]
  obtain n where n: "length msgs = Suc n" using assms(1) by (cases msgs) auto
  show each: "\<forall>i<length msgs. timerFires ?m' (?timers ! i) =
      (if i = length msgs - 1 then Some (msgs ! i) else None)"
  proof (intro allI impI)
    fix i assume i: "i < length msgs"
    then have timer: "?timers ! i = Tick (msgs ! i) (debounceTag m + of_nat i)"
      using shape by blast
    have tag: "debounceTag ?m' - 1 = debounceTag m + of_nat n" using shape by (simp add: n)
    have "i < 2 ^ 64" "n < 2 ^ 64" using i assms(2) n by simp_all
    then have "((of_nat i :: 64 word) = of_nat n) = (i = n)"
      by (simp add: word_of_nat_eq_iff take_bit_nat_eq_self)
    then have "(debounceTag m + of_nat i = debounceTag m + of_nat n) = (i = n)" by simp
    with timer tag show "timerFires ?m' (?timers ! i) =
        (if i = length msgs - 1 then Some (msgs ! i) else None)"
      by (simp add: n)
  qed
  have len: "length ?timers = length msgs" using shape by blast
  have "\<forall>i<length ?timers. timerFires ?m' (?timers ! i) =
      (if i = length ?timers - 1 then Some (last msgs) else None)"
    using each assms(1) by (simp add: len last_conv_nth)
  moreover have "?timers \<noteq> []" using len assms(1) by auto
  ultimately have "List.map_filter (timerFires ?m') ?timers = [last msgs]"
    by (intro map_filter_only_last)
  then have "mset (List.map_filter (timerFires ?m') order) = {#last msgs#}"
    using assms(3) by (metis mset_map_filter mset.simps(1) mset.simps(2))
  then show "List.map_filter (timerFires ?m') order = [last msgs]"
    by (metis mset_single_iff_right)
qed

lemma debounce_delivers_last_example:
  "snd (scheduleAll [RunProcessLoadSSHConfig ''a'', RunProcessLoadSSHConfig ''ab''] newForm) =
     [Tick (RunProcessLoadSSHConfig ''a'') 0, Tick (RunProcessLoadSSHConfig ''ab'') 1] \<and>
   List.map_filter
     (timerFires (fst (scheduleAll [RunProcessLoadSSHConfig ''a'', RunProcessLoadSSHConfig ''ab''] newForm)))
     [Tick (RunProcessLoadSSHConfig ''ab'') 1, Tick (RunProcessLoadSSHConfig ''a'') 0] =
     [RunProcessLoadSSHConfig ''ab''] \<and>
   map_sum id (\<lambda>(m, cmds). (cmds, debounceTag m, map (timerFires m) cmds))
     (run [TeaKeyMsg keyDown,
           TeaKeyMsg (typing ''a''), DebouncedMessage (RunProcessLoadSSHConfig ''a'') 0,
           TeaKeyMsg (typing ''ab''), DebouncedMessage (RunProcessLoadSSHConfig ''ab'') 1] newForm) =
     Inr ([Batch [Blink],
           TeaCmd (DebouncedMessage (RunProcessLoadSSHConfig ''a'') 0),
           Tick (RunProcessLoadSSHConfig ''a'') 0,
           TeaCmd (DebouncedMessage (RunProcessLoadSSHConfig ''ab'') 1),
           Tick (RunProcessLoadSSHConfig ''ab'') 1],
          2, [None, None, None, None, Some (RunProcessLoadSSHConfig ''ab'')])"
proof -
  let ?msgs = "[RunProcessLoadSSHConfig ''a'', RunProcessLoadSSHConfig ''ab'']"
  have tag: "debounceTag newForm = 0" by (simp add: newForm_def New_def split_beta Let_def)
  have timers: "snd (scheduleAll ?msgs newForm) =
      [Tick (RunProcessLoadSSHConfig ''a'') 0, Tick (RunProcessLoadSSHConfig ''ab'') 1]"
    by (simp add: handleDebouncedMessage_def tag)
  have burst: "?msgs \<noteq> []" "length ?msgs \<le> 2 ^ 64" by simp_all
  have order: "mset [Tick (RunProcessLoadSSHConfig ''ab'') 1, Tick (RunProcessLoadSSHConfig ''a'') 0] =
      mset (snd (scheduleAll ?msgs newForm))"
    unfolding timers by simp
  from debounce_delivers_last [OF burst order]
  have last: "List.map_filter (timerFires (fst (scheduleAll ?msgs newForm)))
      [Tick (RunProcessLoadSSHConfig ''ab'') 1, Tick (RunProcessLoadSSHConfig ''a'') 0] =
      [RunProcessLoadSSHConfig ''ab'']"
    by simp
  have trace: "map_sum id (\<lambda>(m, cmds). (cmds, debounceTag m, map (timerFires m) cmds))
     (run [TeaKeyMsg keyDown,
           TeaKeyMsg (typing ''a''), DebouncedMessage (RunProcessLoadSSHConfig ''a'') 0,
           TeaKeyMsg (typing ''ab''), DebouncedMessage (RunProcessLoadSSHConfig ''ab'') 1] newForm) =
     Inr ([Batch [Blink],
           TeaCmd (DebouncedMessage (RunProcessLoadSSHConfig ''a'') 0),
           Tick (RunProcessLoadSSHConfig ''a'') 0,
           TeaCmd (DebouncedMessage (RunProcessLoadSSHConfig ''ab'') 1),
           Tick (RunProcessLoadSSHConfig ''ab'') 1],
          2, [None, None, None, None, Some (RunProcessLoadSSHConfig ''ab'')])"
    by (simp add: example_defs form_defs handleDebouncedMessage_def)
  from timers last trace show ?thesis by simp
qed

text \<open>
  C4. A burst of two schedule calls made before either envelope is handled: on the form for a new
  host with the address focused, the keys that leave the address at \<open>a\<close> and then at \<open>ab\<close>
  both emit an envelope with the tag 0. Once both envelopes are handled, within the debounce
  window, the form's tag is 2, and neither timer delivers its message, whichever fires first:
  the message of the last call is dropped with the earlier one.
\<close>

theorem debounce_overlapping_calls_deliver_nothing:
  "map_sum id (\<lambda>(m, cmds). (cmds, debounceTag m, map (timerFires m) cmds))
     (run [TeaKeyMsg keyDown,
           TeaKeyMsg (typing ''a''), TeaKeyMsg (typing ''ab''),
           DebouncedMessage (RunProcessLoadSSHConfig ''a'') 0,
           DebouncedMessage (RunProcessLoadSSHConfig ''ab'') 0] newForm) =
     Inr ([Batch [Blink],
           TeaCmd (DebouncedMessage (RunProcessLoadSSHConfig ''a'') 0),
           TeaCmd (DebouncedMessage (RunProcessLoadSSHConfig ''ab'') 0),
           Tick (RunProcessLoadSSHConfig ''a'') 0,
           Tick (RunProcessLoadSSHConfig ''ab'') 0],
          2, [None, None, None, None, None])"
  by (simp add: example_defs form_defs handleDebouncedMessage_def)

end
